theory Spec2Isabelle
  imports Main
begin

section \<open>Python strings\<close>

text \<open>
  A Python \<open>str\<close> is a sequence of Unicode code points. A code point is modelled as a
  natural number and a string as a list of them, so that \<open>length\<close> counts what Python's
  \<open>len\<close> counts. ASCII literals of the source are written through \<open>ustr\<close>.
\<close>

type_synonym pychar = nat
type_synonym pystr = "pychar list"

definition ustr :: "string \<Rightarrow> pystr" where
  "ustr s = map of_char s"

text \<open>
  The code points for which \<open>str.isspace\<close> holds; \<open>str.split()\<close> and \<open>str.strip()\<close>
  without arguments use this set.
\<close>

definition py_isspace :: "pychar \<Rightarrow> bool" where
  "py_isspace c \<longleftrightarrow>
     (9 \<le> c \<and> c \<le> 13) \<or> (28 \<le> c \<and> c \<le> 32) \<or> c = 133 \<or> c = 160 \<or> c = 5760 \<or>
     (8192 \<le> c \<and> c \<le> 8202) \<or> c = 8232 \<or> c = 8233 \<or> c = 8239 \<or> c = 8287 \<or> c = 12288"

text \<open>
  \<open>text.split()\<close>: runs of whitespace separate the words, and no empty word is
  produced. \<open>split_from cur cs\<close> scans \<open>cs\<close> with the word under construction \<open>cur\<close>.
\<close>

fun split_from :: "pystr \<Rightarrow> pystr \<Rightarrow> pystr list" where
  "split_from cur [] = (if cur = [] then [] else [cur])"
| "split_from cur (c # cs) =
     (if py_isspace c
      then (if cur = [] then split_from [] cs else cur # split_from [] cs)
      else split_from (cur @ [c]) cs)"

definition py_split :: "pystr \<Rightarrow> pystr list" where
  "py_split text = split_from [] text"

text \<open>\<open>sep.join(xs)\<close>: the items with \<open>sep\<close> between each two neighbours.\<close>

fun py_join :: "pystr \<Rightarrow> pystr list \<Rightarrow> pystr" where
  "py_join sep [] = []"
| "py_join sep [x] = x"
| "py_join sep (x # y # ys) = x @ sep @ py_join sep (y # ys)"

text \<open>\<open>s.strip()\<close> removes leading and trailing whitespace.\<close>

definition py_strip :: "pystr \<Rightarrow> pystr" where
  "py_strip s = rev (dropWhile py_isspace (rev (dropWhile py_isspace s)))"

definition py_startswith :: "pystr \<Rightarrow> pystr \<Rightarrow> bool" where
  "py_startswith s p \<longleftrightarrow> take (length p) s = p"

subsection \<open>Ranges and slices\<close>

text \<open>
  \<open>range(start, stop, step)\<close> for a non-zero step, as the list of its elements. A zero
  step raises \<open>ValueError\<close> in Python; the caller checks it before the range is built.
\<close>

function py_range :: "int \<Rightarrow> int \<Rightarrow> int \<Rightarrow> int list" where
  "py_range i stop step =
     (if 0 < step \<and> i < stop then i # py_range (i + step) stop step
      else if step < 0 \<and> stop < i then i # py_range (i + step) stop step
      else [])"
  by pat_completeness auto
termination
  by (relation "measure (\<lambda>(i, stop, step). nat (if 0 < step then stop - i else i - stop))") auto

declare py_range.simps [simp del]

text \<open>
  \<open>xs[i:j]\<close>: a negative bound counts from the end, and both bounds are clamped to the
  list, so a slice never raises.
\<close>

definition slice_bound :: "int \<Rightarrow> int \<Rightarrow> int" where
  "slice_bound n k = (if k < 0 then max (k + n) 0 else min k n)"

definition py_slice :: "'a list \<Rightarrow> int \<Rightarrow> int \<Rightarrow> 'a list" where
  "py_slice xs i j =
     (let n = int (length xs); lo = slice_bound n i; hi = slice_bound n j
      in take (nat (hi - lo)) (drop (nat lo) xs))"

section \<open>Exceptions\<close>

text \<open>
  An exception is a value carrying the text that \<open>str(e)\<close> gives; a computation that
  may raise returns \<open>exn + 'a\<close>, with \<open>Inl\<close> for the raised exception.
\<close>

datatype exn = PyException (exn_str: pystr)

section \<open>The chunker\<close>

text \<open>
  \<^verbatim>\<open>
  def chunk_text(text, max_tokens=500):
      words = text.split()
      return [" ".join(words[i:i+max_tokens]) for i in range(0,len(words),max_tokens)]
  \<close>
  \<open>range\<close> raises \<open>ValueError\<close> when \<open>max_tokens\<close> is zero.
\<close>

definition chunk_text :: "pystr \<Rightarrow> int \<Rightarrow> exn + pystr list" where
  "chunk_text text max_tokens =
     (let words = py_split text
      in if max_tokens = 0
         then Inl (PyException (ustr ''range() arg 3 must not be zero''))
         else Inr (map (\<lambda>i. py_join (ustr '' '') (py_slice words i (i + max_tokens)))
                       (py_range 0 (int (length words)) max_tokens)))"

text \<open>
  The windows the comprehension builds, as a recursion on the word list: the first
  \<open>n\<close> words, then the windows of the rest. It is the reference the chunker is
  compared with; the chunker itself is \<open>chunk_text\<close> above.
\<close>

function chunks :: "nat \<Rightarrow> 'a list \<Rightarrow> 'a list list" where
  "chunks n xs = (if n = 0 \<or> xs = [] then [] else take n xs # chunks n (drop n xs))"
  by pat_completeness auto
termination
  by (relation "measure (\<lambda>(n, xs). length xs)") auto

declare chunks.simps [simp del]

text \<open>A word as \<open>split\<close> produces it: not empty and free of whitespace.\<close>

definition good_word :: "pystr \<Rightarrow> bool" where
  "good_word w \<longleftrightarrow> w \<noteq> [] \<and> (\<forall>c \<in> set w. \<not> py_isspace c)"

section \<open>External collaborators\<close>

text \<open>
  The HTTP client, the HTML parser, the language-model chain, the PDF library and the
  user's input are not part of the script. Each is a field of the environment, and each
  call that may raise returns \<open>exn + 'a\<close>. The \<open>k\<close>-th call of \<open>llm_chain.invoke\<close> in a
  run is \<open>chain_invoke env k\<close>, so two calls on equal chunks may answer differently.
\<close>

record response =
  status_code :: int
  resp_text :: pystr

text \<open>
  What \<open>llm_chain.invoke\<close> returns: an object that may have a \<open>content\<close> attribute, and
  its \<open>str\<close>.
\<close>

datatype llm_result = LlmResult (content: "pystr option") (as_str: pystr)

record env =
  requests_get :: "pystr \<Rightarrow> (pystr \<times> pystr) list \<Rightarrow> int \<Rightarrow> exn + response"
  raise_for_status :: "response \<Rightarrow> exn option"
  bs_get_text :: "pystr \<Rightarrow> pystr \<Rightarrow> exn + pystr"
  chain_error :: "exn option"
  chain_invoke :: "nat \<Rightarrow> pystr \<Rightarrow> exn + llm_result"
  fpdf_output :: "pystr list \<Rightarrow> exn + pystr"
  st_text_input :: pystr
  st_button :: bool

text \<open>
  \<open>Response.raise_for_status\<close> belongs to the HTTP library. It raises \<open>HTTPError\<close> for
  the client-error and server-error codes, 400 to 599, and returns for every other
  code, so a response that ends with a 1xx or 3xx code (300 or 304, say) passes it as a
  2xx one does. An environment whose status check does this satisfies
  \<open>requests_status_check\<close>.
\<close>

definition is_success_status :: "int \<Rightarrow> bool" where
  "is_success_status code \<longleftrightarrow> 200 \<le> code \<and> code < 300"

definition is_error_status :: "int \<Rightarrow> bool" where
  "is_error_status code \<longleftrightarrow> 400 \<le> code \<and> code < 600"

definition requests_status_check :: "env \<Rightarrow> bool" where
  "requests_status_check env \<longleftrightarrow>
     (\<forall>r. (raise_for_status env r \<noteq> None) = is_error_status (status_code r))"

text \<open>What a run does that can be observed: the widgets it renders, the log lines it
  writes and the stages of the pipeline it calls, in order.\<close>

datatype event =
    StTitle pystr
  | StTextInput pystr
  | StButton pystr
  | StWarning pystr
  | StSpinner pystr
  | StError pystr
  | StSuccess pystr
  | StMarkdown pystr
  | StDownloadButton pystr pystr pystr pystr
  | LogError pystr
  | CallLoadDocument pystr
  | CallSetupChain
  | CallChunkText pystr
  | CallInvoke pystr
  | CallGeneratePdf pystr

fun is_pipeline_call :: "event \<Rightarrow> bool" where
  "is_pipeline_call (CallLoadDocument _) = True"
| "is_pipeline_call CallSetupChain = True"
| "is_pipeline_call (CallChunkText _) = True"
| "is_pipeline_call (CallInvoke _) = True"
| "is_pipeline_call _ = False"

text \<open>The events of lines 122-134, where the stored summary is displayed.\<close>

fun is_summary_display :: "event \<Rightarrow> bool" where
  "is_summary_display (StMarkdown _) = True"
| "is_summary_display (CallGeneratePdf _) = True"
| "is_summary_display (StDownloadButton _ _ _ _) = True"
| "is_summary_display _ = False"

text \<open>The chunks handed to the chain in a run, in the order of the calls.\<close>

fun invoked :: "event list \<Rightarrow> pystr list" where
  "invoked [] = []"
| "invoked (CallInvoke c # tr) = c # invoked tr"
| "invoked (_ # tr) = invoked tr"

section \<open>The document loader\<close>

text \<open>
  \<^verbatim>\<open>
  def clean_html(html_content):
      return BeautifulSoup(html_content, "html.parser").get_text(separator=" ").strip()
  \<close>
\<close>

definition clean_html :: "env \<Rightarrow> pystr \<Rightarrow> exn + pystr" where
  "clean_html env html_content =
     (case bs_get_text env html_content (ustr '' '') of
        Inl e \<Rightarrow> Inl e
      | Inr t \<Rightarrow> Inr (py_strip t))"

definition headers :: "(pystr \<times> pystr) list" where
  "headers = [(ustr ''User-Agent'',
     ustr ''Mozilla/5.0(WindowsNT10.0;Win64;x64)AppleWebKit/537.36(KHTML,like Gecko)Chrome/134.0.0.0 Safari/537.36'')]"

definition no_content :: pystr where
  "no_content = ustr ''No content extracted. Try a different URL.''"

text \<open>The body of the \<open>try\<close> block of \<open>load_document\<close>: any of its calls may raise.\<close>

definition load_document_try :: "env \<Rightarrow> pystr \<Rightarrow> exn + pystr" where
  "load_document_try env url =
     (case requests_get env url headers 10 of
        Inl e \<Rightarrow> Inl e
      | Inr response \<Rightarrow>
          (case raise_for_status env response of
             Some e \<Rightarrow> Inl e
           | None \<Rightarrow>
               (case clean_html env (resp_text response) of
                  Inl e \<Rightarrow> Inl e
                | Inr text_content \<Rightarrow>
                    if text_content = [] then Inr no_content else Inr text_content)))"

text \<open>
  \<open>load_document\<close>: the \<open>try\<close> block under \<open>except Exception as e\<close>, whose handler logs
  and returns \<open>f"Error loading document: {e}"\<close>. The result is what the call gives its
  caller (\<open>Inl\<close> would be an exception leaving the function) and the log lines written.
\<close>

definition load_document :: "env \<Rightarrow> pystr \<Rightarrow> (exn + pystr) \<times> event list" where
  "load_document env url =
     (case load_document_try env url of
        Inr s \<Rightarrow> (Inr s, [])
      | Inl e \<Rightarrow>
          (Inr (ustr ''Error loading document: '' @ exn_str e),
           [LogError (ustr ''Failed to load document: '' @ exn_str e)]))"

section \<open>Summarization and aggregation\<close>

text \<open>
  \<open>setup_summarization_chain\<close> builds the prompt template and the model client and
  returns their composition; the chain is then the environment's \<open>chain_invoke\<close>.
\<close>

definition setup_summarization_chain :: "env \<Rightarrow> exn + (nat \<Rightarrow> pystr \<Rightarrow> exn + llm_result)" where
  "setup_summarization_chain env =
     (case chain_error env of Some e \<Rightarrow> Inl e | None \<Rightarrow> Inr (chain_invoke env))"

text \<open>\<open>getattr(summary, "content", str(summary))\<close>\<close>

definition result_text :: "llm_result \<Rightarrow> pystr" where
  "result_text summary = (case content summary of Some c \<Rightarrow> c | None \<Rightarrow> as_str summary)"

text \<open>
  The body of the loop over the chunks: the \<open>try\<close> around the call of the chain, with
  its handler. It gives the string appended to \<open>summaries\<close> and the events of the step.
\<close>

definition summarize_chunk ::
  "(nat \<Rightarrow> pystr \<Rightarrow> exn + llm_result) \<Rightarrow> nat \<Rightarrow> pystr \<Rightarrow> pystr \<times> event list" where
  "summarize_chunk llm_chain k chunk =
     (case llm_chain k chunk of
        Inr summary \<Rightarrow> (result_text summary, [CallInvoke chunk])
      | Inl e \<Rightarrow>
          (ustr ''Error processing chunk: '' @ exn_str e,
           [CallInvoke chunk, LogError (ustr ''Error in summarization: '' @ exn_str e)]))"

fun summarize_loop ::
  "(nat \<Rightarrow> pystr \<Rightarrow> exn + llm_result) \<Rightarrow> nat \<Rightarrow> pystr list \<Rightarrow> pystr list \<times> event list
     \<Rightarrow> pystr list \<times> event list" where
  "summarize_loop llm_chain k [] (summaries, tr) = (summaries, tr)"
| "summarize_loop llm_chain k (chunk # rest) (summaries, tr) =
     (case summarize_chunk llm_chain k chunk of
        (s, ev) \<Rightarrow> summarize_loop llm_chain (Suc k) rest (summaries @ [s], tr @ ev))"

text \<open>Line 119: \<open>"\n\n".join(summaries)\<close>.\<close>

definition blank_line :: pystr where
  "blank_line = [10, 10]"

definition aggregate :: "pystr list \<Rightarrow> pystr" where
  "aggregate summaries = py_join blank_line summaries"

text \<open>
  The aggregate as the specification words it: \<open>s1 + blank-line + s2 + ... + blank-line + sn\<close>,
  built from the left.
\<close>

definition aggregate_spec :: "pystr list \<Rightarrow> pystr" where
  "aggregate_spec ss =
     (case ss of [] \<Rightarrow> [] | s # rest \<Rightarrow> foldl (\<lambda>acc t. acc @ blank_line @ t) s rest)"

section \<open>The PDF renderer\<close>

text \<open>\<open>s.split(sep)\<close> for a one-character separator: empty pieces are kept.\<close>

fun split_on :: "pychar \<Rightarrow> pystr \<Rightarrow> pystr \<Rightarrow> pystr list" where
  "split_on sep cur [] = [cur]"
| "split_on sep cur (c # cs) =
     (if c = sep then cur # split_on sep [] cs else split_on sep (cur @ [c]) cs)"

text \<open>
  \<open>generate_pdf\<close> lays each line of the summary out as a cell and writes the document
  to a temporary file, whose name it returns; the layout and the file are the library's.
\<close>

definition generate_pdf :: "env \<Rightarrow> pystr \<Rightarrow> exn + pystr" where
  "generate_pdf env summary_text = fpdf_output env (split_on 10 [] summary_text)"

section \<open>The front end\<close>

type_synonym session_state = "string \<rightharpoonup> pystr"

datatype outcome = Returned | Raised exn

record run =
  run_state :: session_state
  run_trace :: "event list"
  run_outcome :: outcome

text \<open>Lines 90-91: the slot is created, empty, when the session has none.\<close>

definition session_init :: "session_state \<Rightarrow> session_state" where
  "session_init st = (if st ''summary'' = None then st(''summary'' \<mapsto> []) else st)"

text \<open>Lines 88-95, up to the test of the button.\<close>

definition page_head :: "event list" where
  "page_head =
     [StTitle (128196 # ustr '' WEBSUM: Web Page Summarizer''),
      StTextInput (ustr ''Enter URL to summarize:''),
      StButton (ustr ''Summarize'')]"

definition success_message :: pystr where
  "success_message = 9989 # ustr '' Summary generated successfully!''"

text \<open>
  Lines 122-134: a non-empty slot is displayed and offered as a PDF. Reading a slot
  that does not exist raises \<open>KeyError\<close>.
\<close>

definition show_summary :: "env \<Rightarrow> session_state \<Rightarrow> event list \<Rightarrow> run" where
  "show_summary env st tr =
     (case st ''summary'' of
        None \<Rightarrow> \<lparr>run_state = st, run_trace = tr, run_outcome = Raised (PyException (ustr ''summary''))\<rparr>
      | Some s \<Rightarrow>
          if s = [] then \<lparr>run_state = st, run_trace = tr, run_outcome = Returned\<rparr>
          else
            (let tr1 = tr @ [StMarkdown (ustr ''### '' @ [128466, 65039] @ ustr '' Summary''),
                             StMarkdown s, CallGeneratePdf s]
             in case generate_pdf env s of
                  Inl e \<Rightarrow> \<lparr>run_state = st, run_trace = tr1, run_outcome = Raised e\<rparr>
                | Inr pdf_path \<Rightarrow>
                    \<lparr>run_state = st,
                     run_trace = tr1 @ [StDownloadButton (128229 # ustr '' Download Summary as PDF'')
                                          pdf_path (ustr ''summary.pdf'') (ustr ''application/pdf'')],
                     run_outcome = Returned\<rparr>))"

text \<open>Lines 106-120: the summarizing stage, entered with the document's text.\<close>

definition summarize_stage :: "env \<Rightarrow> session_state \<Rightarrow> event list \<Rightarrow> pystr \<Rightarrow> run" where
  "summarize_stage env st tr document_text =
     (let tr1 = tr @ [StSpinner (ustr ''Summarizing...''), CallSetupChain]
      in case setup_summarization_chain env of
           Inl e \<Rightarrow> \<lparr>run_state = st, run_trace = tr1, run_outcome = Raised e\<rparr>
         | Inr llm_chain \<Rightarrow>
             (let tr2 = tr1 @ [CallChunkText document_text]
              in case chunk_text document_text 500 of
                   Inl e \<Rightarrow> \<lparr>run_state = st, run_trace = tr2, run_outcome = Raised e\<rparr>
                 | Inr cs \<Rightarrow>
                     (case summarize_loop llm_chain 0 cs ([], tr2) of
                        (summaries, tr3) \<Rightarrow>
                          show_summary env (st(''summary'' \<mapsto> aggregate summaries))
                            (tr3 @ [StSuccess success_message]))))"

text \<open>
  \<open>streamlit_mode\<close>: one execution of the script, from the session state it finds to
  the session state it leaves, with what it displayed and called.
\<close>

definition streamlit_mode :: "env \<Rightarrow> session_state \<Rightarrow> run" where
  "streamlit_mode env st0 =
     (let st = session_init st0; url = st_text_input env
      in if st_button env then
           (if url = [] then
              show_summary env st (page_head @ [StWarning (ustr ''Please enter a valid URL.'')])
            else
              (case load_document env url of
                 (res, ev) \<Rightarrow>
                   (let tr = page_head @ [StSpinner (ustr ''Fetching document...''),
                                          CallLoadDocument url] @ ev
                    in case res of
                         Inl e \<Rightarrow> \<lparr>run_state = st, run_trace = tr, run_outcome = Raised e\<rparr>
                       | Inr document_text \<Rightarrow>
                           if py_startswith document_text (ustr ''Error'')
                           then \<lparr>run_state = st, run_trace = tr @ [StError document_text],
                                 run_outcome = Returned\<rparr>
                           else summarize_stage env st tr document_text)))
         else show_summary env st page_head)"

section \<open>Example environments\<close>

text \<open>
  A page served with the given status whose body is plain text, so that the parser
  returns the body as it is. The status check raises for the 4xx and 5xx codes; the
  second call of the chain times out and every other call answers; the user has typed a
  URL and pressed the button.
\<close>

definition example_env :: "int \<Rightarrow> pystr \<Rightarrow> env" where
  "example_env status body =
     \<lparr>requests_get = (\<lambda>url hs timeout. Inr \<lparr>status_code = status, resp_text = body\<rparr>),
      raise_for_status = (\<lambda>r. if 400 \<le> status_code r \<and> status_code r < 600
                                then Some (PyException (ustr ''HTTPError'')) else None),
      bs_get_text = (\<lambda>html sep. Inr html),
      chain_error = None,
      chain_invoke = (\<lambda>k chunk. if k = 1 then Inl (PyException (ustr ''timeout''))
                                  else Inr (LlmResult (Some (ustr ''ok'')) [])),
      fpdf_output = (\<lambda>ls. Inr (ustr ''/tmp/summary.pdf'')),
      st_text_input = ustr ''http://a'',
      st_button = True\<rparr>"

text \<open>A document of 1001 words, which the chunker cuts into three chunks.\<close>

definition long_text :: pystr where
  "long_text = py_join (ustr '' '') (replicate 1001 (ustr ''a''))"

section \<open>Words, joins and windows\<close>

lemma split_from_good:
  "\<forall>c \<in> set cur. \<not> py_isspace c \<Longrightarrow> w \<in> set (split_from cur cs) \<Longrightarrow> good_word w"
proof (induction cs arbitrary: cur)
  case Nil
  then show ?case by (auto simp: good_word_def split: if_splits)
next
  case (Cons c cs)
  show ?case
  proof (cases "py_isspace c")
    case True
    have e: "\<forall>c \<in> set ([]::pystr). \<not> py_isspace c" by simp
    show ?thesis
    proof (cases "cur = []")
      case True
      then have "w \<in> set (split_from [] cs)" using Cons.prems \<open>py_isspace c\<close> by simp
      then show ?thesis using Cons.IH[OF e] by simp
    next
      case False
      then have "w = cur \<or> w \<in> set (split_from [] cs)" using Cons.prems \<open>py_isspace c\<close> by simp
      then show ?thesis using Cons.IH[OF e] False Cons.prems(1) by (auto simp: good_word_def)
    qed
  next
    case False
    then have "w \<in> set (split_from (cur @ [c]) cs)" using Cons.prems by simp
    moreover have "\<forall>d \<in> set (cur @ [c]). \<not> py_isspace d" using False Cons.prems(1) by simp
    ultimately show ?thesis using Cons.IH by blast
  qed
qed

lemma py_split_good: "w \<in> set (py_split text) \<Longrightarrow> good_word w"
  unfolding py_split_def by (rule split_from_good[of "[]"]) simp_all

lemma split_from_nospace:
  "\<forall>c \<in> set w. \<not> py_isspace c \<Longrightarrow> split_from cur (w @ cs) = split_from (cur @ w) cs"
  by (induction w arbitrary: cur) simp_all

lemma isspace_sp: "py_isspace 32"
  by (simp add: py_isspace_def)

lemma ustr_sp: "ustr '' '' = [32]"
  by (simp add: ustr_def)

lemma split_join:
  "\<forall>w \<in> set ws. good_word w \<Longrightarrow> split_from [] (py_join [32] ws) = ws"
proof (induction ws)
  case Nil
  then show ?case by simp
next
  case (Cons x ws)
  then have x: "x \<noteq> []" "\<forall>c \<in> set x. \<not> py_isspace c" by (simp_all add: good_word_def)
  show ?case
  proof (cases ws)
    case Nil
    have "split_from [] (x @ []) = split_from ([] @ x) []"
      using x(2) by (rule split_from_nospace)
    then show ?thesis using Nil x(1) by simp
  next
    case (Cons y ys)
    have "split_from [] (x @ ([32] @ py_join [32] ws)) = split_from ([] @ x) ([32] @ py_join [32] ws)"
      using x(2) by (rule split_from_nospace)
    also have "\<dots> = x # split_from [] (py_join [32] ws)"
      using x(1) by (simp add: isspace_sp)
    also have "\<dots> = x # ws" using Cons.IH Cons.prems by simp
    finally show ?thesis using Cons by simp
  qed
qed

lemma py_split_join: "\<forall>w \<in> set ws. good_word w \<Longrightarrow> py_split (py_join (ustr '' '') ws) = ws"
  by (simp add: py_split_def ustr_sp split_join)

lemma split_all_space: "\<forall>c \<in> set cs. py_isspace c \<Longrightarrow> split_from [] cs = []"
  by (induction cs) simp_all

lemma py_join_append:
  "xs \<noteq> [] \<Longrightarrow> ys \<noteq> [] \<Longrightarrow> py_join sep (xs @ ys) = py_join sep xs @ sep @ py_join sep ys"
proof (induction xs)
  case Nil
  then show ?case by simp
next
  case (Cons x xs)
  show ?case
  proof (cases xs)
    case Nil
    then show ?thesis using Cons.prems by (cases ys) simp_all
  next
    case (Cons z zs)
    then show ?thesis using Cons.IH Cons.prems by simp
  qed
qed

lemma chunks_concat: "0 < n \<Longrightarrow> concat (chunks n xs) = xs"
proof (induction n xs rule: chunks.induct)
  case (1 n xs)
  show ?case
  proof (cases "xs = []")
    case True
    then show ?thesis by (subst chunks.simps) simp
  next
    case False
    then have "concat (chunks n (drop n xs)) = drop n xs" using 1 by simp
    then show ?thesis using False "1.prems" by (subst chunks.simps) simp
  qed
qed

lemma chunks_nonempty: "c \<in> set (chunks n xs) \<Longrightarrow> c \<noteq> [] \<and> length c \<le> n \<and> set c \<subseteq> set xs"
proof (induction n xs rule: chunks.induct)
  case (1 n xs)
  from "1.prems" have ne: "\<not> (n = 0 \<or> xs = [])"
    by (subst (asm) chunks.simps) (simp split: if_splits)
  then have "c = take n xs \<or> c \<in> set (chunks n (drop n xs))"
    using "1.prems" by (subst (asm) chunks.simps) simp
  then show ?case
  proof
    assume "c = take n xs"
    then show ?thesis using ne set_take_subset[of n xs] by simp
  next
    assume "c \<in> set (chunks n (drop n xs))"
    then have "c \<noteq> [] \<and> length c \<le> n \<and> set c \<subseteq> set (drop n xs)" using 1 ne by blast
    then show ?thesis using set_drop_subset[of n xs] by blast
  qed
qed

lemma join_chunks:
  "\<forall>c \<in> set cs. c \<noteq> [] \<Longrightarrow> py_join sep (map (py_join sep) cs) = py_join sep (concat cs)"
proof (induction cs)
  case Nil
  then show ?case by simp
next
  case (Cons c cs)
  show ?case
  proof (cases cs)
    case Nil
    then show ?thesis by simp
  next
    case (Cons d ds)
    then have ne: "concat cs \<noteq> []" "c \<noteq> []" using Cons.prems by simp_all
    have "py_join sep (map (py_join sep) (c # cs)) = py_join sep c @ sep @ py_join sep (map (py_join sep) cs)"
      using Cons by simp
    also have "\<dots> = py_join sep c @ sep @ py_join sep (concat cs)"
      using Cons.IH Cons.prems by simp
    also have "\<dots> = py_join sep (c @ concat cs)"
      using ne by (simp add: py_join_append)
    finally show ?thesis by simp
  qed
qed

lemma chunks_nth:
  "0 < n \<Longrightarrow> k < length (chunks n xs) \<Longrightarrow> chunks n xs ! k = take n (drop (k * n) xs)"
proof (induction n xs arbitrary: k rule: chunks.induct)
  case (1 n xs)
  from "1.prems" have ne: "\<not> (n = 0 \<or> xs = [])"
    by (subst (asm) chunks.simps) (simp split: if_splits)
  then have eq: "chunks n xs = take n xs # chunks n (drop n xs)" by (subst chunks.simps) simp
  show ?case
  proof (cases k)
    case 0
    then show ?thesis using eq by simp
  next
    case (Suc j)
    then have "j < length (chunks n (drop n xs))" using "1.prems" eq by simp
    then have "chunks n (drop n xs) ! j = take n (drop (j * n) (drop n xs))"
      using 1 ne by blast
    then show ?thesis using eq Suc by (simp add: add.commute)
  qed
qed

lemma py_slice_window:
  assumes "0 \<le> i" "0 < n"
  shows "py_slice xs i (i + n) = take (nat n) (drop (nat i) xs)"
proof (cases "i + n \<le> int (length xs)")
  case True
  then have "nat (i + n - i) = nat n" by simp
  then show ?thesis using assms True by (simp add: py_slice_def slice_bound_def Let_def)
next
  case False
  then have "length (drop (nat i) xs) \<le> nat n" using assms by simp
  then have a: "take (nat n) (drop (nat i) xs) = drop (nat i) xs" by simp
  have "length (drop (nat i) xs) \<le> nat (int (length xs) - min i (int (length xs)))"
    using assms by simp
  then have b: "take (nat (int (length xs) - min i (int (length xs)))) (drop (nat i) xs) = drop (nat i) xs"
    by simp
  have c: "drop (nat (min i (int (length xs)))) xs = drop (nat i) xs"
    using assms by (cases "i \<le> int (length xs)") (simp_all add: min_def)
  show ?thesis using assms False a b c
    by (simp add: py_slice_def slice_bound_def Let_def)
qed

lemma ceil_div_step:
  assumes "0 < n" "n \<le> m"
  shows "(m + n - 1) div n = Suc ((m - n + n - 1) div n)"
proof -
  obtain p where p: "n = Suc p" using assms(1) by (cases n) simp_all
  obtain j where j: "m = n + j" using assms(2) by (auto simp: le_iff_add)
  have "m + n - 1 = (j + p) + n" using p j by simp
  then have "(m + n - 1) div n = ((j + p) + n) div n" by simp
  also have "\<dots> = Suc ((j + p) div n)" using assms(1) div_add_self2[of n "j + p"] by simp
  also have "j + p = m - n + n - 1" using p j by simp
  then have "(j + p) div n = (m - n + n - 1) div n" by simp
  finally show ?thesis .
qed

lemma ceil_div_small:
  assumes "0 < m" "m < n"
  shows "(m + n - 1) div n = Suc 0"
proof -
  obtain q where q: "m = Suc q" using assms(1) by (cases m) simp_all
  have n: "0 < n" using assms by simp
  have "(m + n - 1) div n = (q + n) div n" using q by simp
  also have "\<dots> = Suc (q div n)" using n div_add_self2[of n q] by simp
  also have "q div n = 0" using assms q by simp
  finally show ?thesis .
qed

lemma chunks_length: "0 < n \<Longrightarrow> length (chunks n xs) = (length xs + n - 1) div n"
proof (induction n xs rule: chunks.induct)
  case (1 n xs)
  show ?case
  proof (cases "xs = []")
    case True
    then show ?thesis using "1.prems" by (subst chunks.simps) simp
  next
    case False
    then have ih: "length (chunks n (drop n xs)) = (length (drop n xs) + n - 1) div n"
      using 1 by simp
    have eq: "chunks n xs = take n xs # chunks n (drop n xs)"
      using False "1.prems" by (subst chunks.simps) simp
    show ?thesis
    proof (cases "n \<le> length xs")
      case True
      then show ?thesis using eq ih ceil_div_step[OF "1.prems" True] by simp
    next
      case False
      then have d: "drop n xs = []" by simp
      have "chunks n [] = []" by (subst chunks.simps) simp
      then have "length (chunks n xs) = Suc 0" using eq d by simp
      moreover have "(length xs + n - 1) div n = Suc 0"
        using False \<open>xs \<noteq> []\<close> by (intro ceil_div_small) simp_all
      ultimately show ?thesis by simp
    qed
  qed
qed

lemma range_windows:
  "0 < n \<Longrightarrow> 0 \<le> i \<Longrightarrow>
   map (\<lambda>k. f (py_slice xs k (k + n))) (py_range i (int (length xs)) n) =
   map f (chunks (nat n) (drop (nat i) xs))"
proof (induction i "int (length xs)" n rule: py_range.induct)
  case (1 i step)
  show ?case
  proof (cases "i < int (length xs)")
    case True
    then have a: "py_range i (int (length xs)) step = i # py_range (i + step) (int (length xs)) step"
      using "1.prems" by (subst py_range.simps) simp
    have ne: "drop (nat i) xs \<noteq> []" using True "1.prems" by simp
    have b: "chunks (nat step) (drop (nat i) xs) =
        take (nat step) (drop (nat i) xs) # chunks (nat step) (drop (nat step) (drop (nat i) xs))"
      using ne "1.prems" by (subst chunks.simps) simp
    have c: "nat step + nat i = nat (i + step)" using "1.prems" by simp
    have "map (\<lambda>k. f (py_slice xs k (k + step))) (py_range (i + step) (int (length xs)) step) =
      map f (chunks (nat step) (drop (nat (i + step)) xs))"
      using "1.hyps"(1) True "1.prems" by simp
    then show ?thesis using a b c "1.prems" by (simp add: py_slice_window)
  next
    case False
    then have a: "py_range i (int (length xs)) step = []"
      using "1.prems" by (subst py_range.simps) simp
    have "drop (nat i) xs = []" using False "1.prems" by simp
    then have "chunks (nat step) (drop (nat i) xs) = []" by (subst chunks.simps) simp
    then show ?thesis using a by simp
  qed
qed

lemma chunk_text_chunks:
  "0 < n \<Longrightarrow> chunk_text text n = Inr (map (py_join (ustr '' '')) (chunks (nat n) (py_split text)))"
  using range_windows[of n 0 "py_join (ustr '' '')" "py_split text"]
  by (simp add: chunk_text_def Let_def)

section \<open>The loader, the loop and the display\<close>

lemma startswith_error_loading:
  "py_startswith (ustr ''Error loading document: '' @ m) (ustr ''Error'')"
  by (simp add: py_startswith_def ustr_def)

lemma startswith_error_prefix:
  "py_startswith (ustr ''Error loading document: '' @ m) (ustr ''Error loading document: '')"
  by (simp add: py_startswith_def ustr_def)

lemma load_document_raised:
  "load_document_try env url = Inl e \<Longrightarrow>
   load_document env url =
     (Inr (ustr ''Error loading document: '' @ exn_str e),
      [LogError (ustr ''Failed to load document: '' @ exn_str e)])"
  by (simp add: load_document_def)

lemma load_document_returned:
  "load_document_try env url = Inr s \<Longrightarrow> load_document env url = (Inr s, [])"
  by (simp add: load_document_def)

lemma load_document_never_raises: "\<exists>s. fst (load_document env url) = Inr s"
  by (cases "load_document_try env url") (simp_all add: load_document_def)

lemma show_summary_state: "run_state (show_summary env st tr) = st"
  by (simp add: show_summary_def Let_def split: option.split sum.split)

lemma show_summary_trace:
  "\<exists>ex. run_trace (show_summary env st tr) = tr @ ex \<and> list_all is_summary_display ex"
  by (simp add: show_summary_def Let_def split: option.split sum.split)

lemma show_summary_outcome:
  "run_outcome (show_summary env st tr) = Raised e \<Longrightarrow> st ''summary'' = Some s \<Longrightarrow>
   generate_pdf env s = Inl e"
  by (simp add: show_summary_def Let_def split: option.splits sum.splits if_splits)

lemma summarize_loop_eq:
  "summarize_loop ch k cs (ss, tr) =
     (ss @ map (\<lambda>j. fst (summarize_chunk ch (k + j) (cs ! j))) [0..<length cs],
      tr @ concat (map (\<lambda>j. snd (summarize_chunk ch (k + j) (cs ! j))) [0..<length cs]))"
proof (induction cs arbitrary: k ss tr)
  case Nil
  then show ?case by simp
next
  case (Cons c cs)
  have up: "[0..<length (c # cs)] = 0 # map Suc [0..<length cs]"
    by (simp add: upt_conv_Cons map_Suc_upt del: upt_Suc)
  obtain s ev where sc: "summarize_chunk ch k c = (s, ev)" by (cases "summarize_chunk ch k c")
  show ?case
    unfolding up using sc Cons.IH[of "Suc k" "ss @ [s]" "tr @ ev"]
    by (simp add: comp_def)
qed

lemma foldl_prefix:
  "foldl (\<lambda>acc t. acc @ sep @ t) (a @ b) ts = a @ foldl (\<lambda>acc t. acc @ sep @ t) b ts"
  by (induction ts rule: rev_induct) simp_all

lemma py_join_as_foldl:
  "py_join sep (s # rest) = foldl (\<lambda>acc t. acc @ sep @ t) s rest"
proof (induction rest arbitrary: s)
  case Nil
  then show ?case by simp
next
  case (Cons t rest)
  have "py_join sep (s # t # rest) = s @ sep @ py_join sep (t # rest)" by simp
  also have "\<dots> = s @ sep @ foldl (\<lambda>acc t. acc @ sep @ t) t rest" using Cons by simp
  also have "\<dots> = foldl (\<lambda>acc t. acc @ sep @ t) (s @ sep @ t) rest"
    using foldl_prefix[of sep "s @ sep" t rest] by simp
  finally show ?case by simp
qed

lemma fetch_fails_try:
  assumes "requests_get env url headers 10 = Inl e \<or>
     (\<exists>r. requests_get env url headers 10 = Inr r \<and> raise_for_status env r = Some e)"
  shows "load_document_try env url = Inl e"
  using assms by (auto simp: load_document_try_def)

lemma chunks_words_good:
  assumes "c \<in> set (chunks n (py_split text))"
  shows "\<forall>w \<in> set c. good_word w"
  using chunks_nonempty[OF assms] py_split_good by blast

lemma split_chunk_join:
  assumes "c \<in> set (chunks n (py_split text))"
  shows "py_split (py_join (ustr '' '') c) = c"
  using chunks_words_good[OF assms] by (rule py_split_join)

lemma map_split_chunks:
  "map py_split (map (py_join (ustr '' '')) (chunks n (py_split text))) = chunks n (py_split text)"
  by (simp add: map_idI split_chunk_join comp_def)

lemma full_window:
  assumes "0 < n" and "Suc k < (m + n - 1) div n"
  shows "Suc k * n \<le> m"
proof -
  have "Suc (Suc k) \<le> (m + n - 1) div n" using assms(2) by simp
  then have "Suc (Suc k) * n \<le> m + n - 1" using assms(1) by (simp add: less_eq_div_iff_mult_less_eq)
  then have "Suc k * n + n \<le> m + n - 1" by (simp add: add.commute)
  then show ?thesis using assms(1) by simp
qed

lemma trace_show_summary_mono:
  "set tr \<subseteq> set (run_trace (show_summary env st tr))"
  using show_summary_trace[of env st tr] by auto

lemma summarize_stage_state:
  "run_state (summarize_stage env st tr doc) = st \<or>
   StSuccess success_message \<in> set (run_trace (summarize_stage env st tr doc))"
proof (cases "setup_summarization_chain env")
  case (Inl e)
  then show ?thesis by (simp add: summarize_stage_def Let_def)
next
  case (Inr ch)
  show ?thesis
  proof (cases "chunk_text doc 500")
    case (Inl e)
    then show ?thesis using Inr by (simp add: summarize_stage_def Let_def)
  next
    case cs: (Inr cs)
    obtain ss tr3 where l: "summarize_loop ch 0 cs ([], tr @ [StSpinner (ustr ''Summarizing...''), CallSetupChain, CallChunkText doc]) = (ss, tr3)"
      by (cases "summarize_loop ch 0 cs ([], tr @ [StSpinner (ustr ''Summarizing...''), CallSetupChain, CallChunkText doc])")
    have "StSuccess success_message \<in> set (run_trace (show_summary env (st(''summary'' \<mapsto> aggregate ss)) (tr3 @ [StSuccess success_message])))"
      using trace_show_summary_mono[of "tr3 @ [StSuccess success_message]"] by auto
    then show ?thesis using Inr cs l by (simp add: summarize_stage_def Let_def)
  qed
qed

lemma streamlit_mode_state:
  "run_state (streamlit_mode env st) = session_init st \<or>
   StSuccess success_message \<in> set (run_trace (streamlit_mode env st))"
proof (cases "st_button env \<and> st_text_input env \<noteq> []")
  case False
  then show ?thesis by (auto simp: streamlit_mode_def Let_def show_summary_state)
next
  case True
  obtain res ev where ld: "load_document env (st_text_input env) = (res, ev)"
    by (cases "load_document env (st_text_input env)")
  show ?thesis
  proof (cases res)
    case (Inl e)
    then show ?thesis using True ld by (simp add: streamlit_mode_def Let_def)
  next
    case (Inr doc)
    show ?thesis
    proof (cases "py_startswith doc (ustr ''Error'')")
      case True
      then show ?thesis using \<open>st_button env \<and> st_text_input env \<noteq> []\<close> ld Inr
        by (simp add: streamlit_mode_def Let_def)
    next
      case False
      then show ?thesis using \<open>st_button env \<and> st_text_input env \<noteq> []\<close> ld Inr
          summarize_stage_state[of env "session_init st" _ doc]
        by (simp add: streamlit_mode_def Let_def)
    qed
  qed
qed

lemma invoked_append: "invoked (a @ b) = invoked a @ invoked b"
  by (induction a rule: invoked.induct) simp_all

lemma invoked_display: "list_all is_summary_display ex \<Longrightarrow> invoked ex = []"
  by (induction ex rule: invoked.induct) simp_all

lemma invoked_load_document: "invoked (snd (load_document env url)) = []"
  by (cases "load_document_try env url") (simp_all add: load_document_def)

lemma invoked_summarize_chunk: "invoked (snd (summarize_chunk ch k c)) = [c]"
  by (cases "ch k c") (simp_all add: summarize_chunk_def)

lemma invoked_chunk_events:
  "invoked (concat (map (\<lambda>j. snd (summarize_chunk ch (k + j) (cs ! j))) [0..<length cs])) = cs"
proof (induction cs arbitrary: k)
  case Nil
  then show ?case by simp
next
  case (Cons c cs)
  have up: "[0..<length (c # cs)] = 0 # map Suc [0..<length cs]"
    by (simp add: upt_conv_Cons map_Suc_upt del: upt_Suc)
  show ?case
    unfolding up using Cons[of "Suc k"]
    by (simp add: invoked_append invoked_summarize_chunk comp_def)
qed

lemma summarize_stage_run:
  assumes "chain_error env = None" and "chunk_text doc 500 = Inr cs"
  shows "summarize_stage env st tr doc =
     show_summary env
       (st(''summary'' \<mapsto>
          aggregate (map (\<lambda>j. fst (summarize_chunk (chain_invoke env) j (cs ! j))) [0..<length cs])))
       (tr @ [StSpinner (ustr ''Summarizing...''), CallSetupChain, CallChunkText doc] @
        concat (map (\<lambda>j. snd (summarize_chunk (chain_invoke env) j (cs ! j))) [0..<length cs]) @
        [StSuccess success_message])"
  using assms summarize_loop_eq[of "chain_invoke env" 0 cs "[]"]
  by (simp add: summarize_stage_def setup_summarization_chain_def Let_def)

lemma py_strip_id:
  assumes "s \<noteq> []" and "\<not> py_isspace (hd s)" and "\<not> py_isspace (last s)"
  shows "py_strip s = s"
proof -
  have a: "dropWhile py_isspace s = s" using assms(1,2) by (cases s) simp_all
  have h: "hd (rev s) = last s" using assms(1) by (simp add: hd_rev)
  obtain x xs where rs: "rev s = x # xs" using assms(1) by (cases "rev s") simp_all
  have "x = last s" using rs h by simp
  then have "dropWhile py_isspace (x # xs) = x # xs" using assms(3) by simp
  then have b: "dropWhile py_isspace (rev s) = rev s" unfolding rs .
  show ?thesis by (simp add: py_strip_def a b)
qed

lemma hd_py_join: "w \<noteq> [] \<Longrightarrow> py_join sep (w # ws) \<noteq> [] \<and> hd (py_join sep (w # ws)) = hd w"
  by (cases ws) simp_all

lemma last_py_join:
  "ws \<noteq> [] \<Longrightarrow> \<forall>w \<in> set ws. w \<noteq> [] \<Longrightarrow>
   py_join sep ws \<noteq> [] \<and> last (py_join sep ws) = last (last ws)"
proof (induction ws)
  case Nil
  then show ?case by simp
next
  case (Cons w ws)
  then show ?case by (cases ws) simp_all
qed

lemma a_word: "ustr ''a'' = [97]" "good_word [97]" "\<not> py_isspace 97"
  by (simp_all add: ustr_def good_word_def py_isspace_def)

lemma long_text_ends:
  "long_text \<noteq> [] \<and> hd long_text = 97 \<and> last long_text = 97"
proof -
  have r: "replicate 1001 [97::nat] = [97] # replicate 1000 [97]"
    using replicate_Suc[of 1000 "[97::nat]"] by simp
  have "py_join [32] ([97] # replicate 1000 [97]) \<noteq> [] \<and>
      hd (py_join [32] ([97] # replicate 1000 [97])) = hd [97::nat]"
    by (rule hd_py_join) simp
  moreover have "last (py_join [32] (replicate 1001 [97::nat])) = last (last (replicate 1001 [97]))"
    using last_py_join[of "replicate 1001 [97::nat]" "[32]"] by simp
  ultimately show ?thesis by (simp add: long_text_def a_word(1) ustr_sp r)
qed

lemma long_text_strip: "py_strip long_text = long_text"
  using long_text_ends a_word(3) by (intro py_strip_id) simp_all

lemma startswith_hd: "py_startswith s (p # ps) \<Longrightarrow> hd s = p"
  by (cases s) (simp_all add: py_startswith_def)

lemma long_text_not_error: "\<not> py_startswith long_text (ustr ''Error'')"
proof
  assume "py_startswith long_text (ustr ''Error'')"
  then have "py_startswith long_text (69 # [114, 114, 111, 114])" by (simp add: ustr_def)
  then have "hd long_text = 69" by (rule startswith_hd)
  then show False using long_text_ends by simp
qed

lemma long_text_split: "py_split long_text = replicate 1001 [97]"
  unfolding long_text_def a_word(1) by (rule py_split_join) (simp add: a_word(2))

lemma chunks_long:
  "chunks 500 (replicate 1001 w) = [replicate 500 w, replicate 500 w, [w]]"
proof -
  have e: "chunks 500 ([]::'a list) = []" by (subst chunks.simps) simp
  have c: "chunks 500 (replicate (Suc 0) w) = [[w]]" by (subst chunks.simps) (simp add: e)
  have b: "chunks 500 (replicate 501 w) = [replicate 500 w, [w]]"
    by (subst chunks.simps) (simp add: c del: replicate.simps)
  show ?thesis by (subst chunks.simps) (simp add: b del: replicate.simps)
qed

lemma long_text_chunks:
  "chunk_text long_text 500 =
     Inr [py_join (ustr '' '') (replicate 500 [97]), py_join (ustr '' '') (replicate 500 [97]), [97]]"
proof -
  have "chunk_text long_text 500 =
      Inr (map (py_join (ustr '' '')) (chunks (nat 500) (py_split long_text)))"
    by (rule chunk_text_chunks) simp
  then show ?thesis by (simp add: long_text_split chunks_long)
qed

lemma long_text_loaded:
  "load_document (example_env 200 long_text) (ustr ''http://a'') = (Inr long_text, [])"
  using long_text_ends
  by (simp add: load_document_def load_document_try_def clean_html_def example_env_def long_text_strip)

lemma raised_fetch_halts:
  assumes "st_button env" and "st_text_input env = url" and "url \<noteq> []"
    and "load_document_try env url = Inl e"
  shows "fst (load_document env url) = Inr (ustr ''Error loading document: '' @ exn_str e) \<and>
     py_startswith (ustr ''Error loading document: '' @ exn_str e) (ustr ''Error'') \<and>
     streamlit_mode env st =
       \<lparr>run_state = session_init st,
        run_trace = page_head @
          [StSpinner (ustr ''Fetching document...''), CallLoadDocument url,
           LogError (ustr ''Failed to load document: '' @ exn_str e),
           StError (ustr ''Error loading document: '' @ exn_str e)],
        run_outcome = Returned\<rparr> \<and>
     (\<forall>d. CallChunkText d \<notin> set (run_trace (streamlit_mode env st))) \<and>
     (\<forall>c. CallInvoke c \<notin> set (run_trace (streamlit_mode env st))) \<and>
     CallSetupChain \<notin> set (run_trace (streamlit_mode env st))"
proof -
  have ld: "load_document env url =
     (Inr (ustr ''Error loading document: '' @ exn_str e),
      [LogError (ustr ''Failed to load document: '' @ exn_str e)])"
    using assms(4) by (rule load_document_raised)
  have run: "streamlit_mode env st =
       \<lparr>run_state = session_init st,
        run_trace = page_head @
          [StSpinner (ustr ''Fetching document...''), CallLoadDocument url,
           LogError (ustr ''Failed to load document: '' @ exn_str e),
           StError (ustr ''Error loading document: '' @ exn_str e)],
        run_outcome = Returned\<rparr>"
    using assms(1-3) ld startswith_error_loading[of "exn_str e"]
    by (simp add: streamlit_mode_def Let_def)
  show ?thesis
    unfolding run using ld startswith_error_loading[of "exn_str e"]
    by (simp add: page_head_def)
qed

lemma error_status_raises:
  assumes "requests_status_check env" and "is_error_status (status_code r)"
  shows "\<exists>e. raise_for_status env r = Some e"
proof -
  have "raise_for_status env r \<noteq> None"
    using assms by (simp add: requests_status_check_def)
  then show ?thesis by (cases "raise_for_status env r") simp_all
qed

lemma other_status_passes:
  assumes "requests_status_check env" and "\<not> is_error_status (status_code r)"
  shows "raise_for_status env r = None"
proof (cases "raise_for_status env r")
  case None
  then show ?thesis .
next
  case (Some e)
  then have "raise_for_status env r \<noteq> None" by simp
  then have "is_error_status (status_code r)"
    using assms(1) unfolding requests_status_check_def by blast
  then show ?thesis using assms(2) by simp
qed

lemma example_env_status_check: "requests_status_check (example_env status body)"
  by (simp add: requests_status_check_def example_env_def is_error_status_def)

section \<open>The properties of the specification\<close>

text \<open>
  \<^bold>\<open>C1\<close>. For every text \<open>T\<close> and every positive \<open>N\<close>, \<open>chunk_text T N\<close> returns a list of
  chunks whose join with single spaces is the join with single spaces of the words of
  \<open>T\<close>, and splitting the chunks again gives the words of \<open>T\<close>, each once and in order.
\<close>

theorem chunk_text_reassembles:
  assumes "0 < N"
  shows "\<exists>cs. chunk_text T N = Inr cs \<and>
     py_join (ustr '' '') cs = py_join (ustr '' '') (py_split T) \<and>
     concat (map py_split cs) = py_split T"
proof -
  let ?ws = "py_split T"
  let ?cs = "map (py_join (ustr '' '')) (chunks (nat N) ?ws)"
  have n: "0 < nat N" using assms by simp
  have a: "chunk_text T N = Inr ?cs" using assms by (rule chunk_text_chunks)
  have "\<forall>c \<in> set (chunks (nat N) ?ws). c \<noteq> []" using chunks_nonempty by blast
  then have "py_join (ustr '' '') ?cs = py_join (ustr '' '') (concat (chunks (nat N) ?ws))"
    by (rule join_chunks)
  then have b: "py_join (ustr '' '') ?cs = py_join (ustr '' '') ?ws"
    using chunks_concat[OF n, of ?ws] by simp
  have c: "concat (map py_split ?cs) = ?ws"
    using map_split_chunks[of "nat N" T] chunks_concat[OF n, of ?ws] by simp
  show ?thesis using a b c by blast
qed

theorem chunk_text_reassembles_witness:
  "(0::int) < 2 \<and> (\<exists>cs. chunk_text (ustr ''a  b c'') 2 = Inr cs \<and>
     py_join (ustr '' '') cs = ustr ''a b c'' \<and> concat (map py_split cs) = [ustr ''a'', ustr ''b'', ustr ''c''])"
  using chunk_text_reassembles[of 2 "ustr ''a  b c''"]
  by (simp add: py_split_def ustr_def py_isspace_def)

text \<open>
  \<^bold>\<open>C2\<close>. For every text \<open>T\<close> and every positive \<open>N\<close>, the \<open>k\<close>-th chunk of
  \<open>chunk_text T N\<close> is the window of the words \<open>k * N\<close> to \<open>(k + 1) * N\<close> of \<open>T\<close>,
  joined with single spaces: windows follow each other without overlap in document
  order, there are as many as the words need, every chunk has between 1 and \<open>N\<close> words,
  every chunk but the last has exactly \<open>N\<close>, and a text of whitespace only (the empty text
  too) yields no chunk.
\<close>

theorem chunk_text_windows:
  assumes "0 < N"
  shows "\<exists>cs. chunk_text T N = Inr cs \<and>
     length cs = (length (py_split T) + nat N - 1) div nat N \<and>
     (\<forall>k < length cs.
        cs ! k = py_join (ustr '' '') (take (nat N) (drop (k * nat N) (py_split T))) \<and>
        py_split (cs ! k) = take (nat N) (drop (k * nat N) (py_split T)) \<and>
        1 \<le> length (py_split (cs ! k)) \<and> length (py_split (cs ! k)) \<le> nat N) \<and>
     (\<forall>k. Suc k < length cs \<longrightarrow> length (py_split (cs ! k)) = nat N) \<and>
     ((\<forall>c \<in> set T. py_isspace c) \<longrightarrow> cs = [])"
proof -
  let ?ws = "py_split T"
  let ?ch = "chunks (nat N) ?ws"
  let ?cs = "map (py_join (ustr '' '')) ?ch"
  have n: "0 < nat N" using assms by simp
  have a: "chunk_text T N = Inr ?cs" using assms by (rule chunk_text_chunks)
  have len: "length ?cs = (length ?ws + nat N - 1) div nat N"
    using chunks_length[OF n] by simp
  have win: "\<And>k. k < length ?cs \<Longrightarrow>
        ?cs ! k = py_join (ustr '' '') (take (nat N) (drop (k * nat N) ?ws)) \<and>
        py_split (?cs ! k) = take (nat N) (drop (k * nat N) ?ws) \<and>
        1 \<le> length (py_split (?cs ! k)) \<and> length (py_split (?cs ! k)) \<le> nat N"
  proof -
    fix k assume k: "k < length ?cs"
    then have k': "k < length ?ch" by simp
    have nth: "?ch ! k = take (nat N) (drop (k * nat N) ?ws)" using chunks_nth[OF n k'] .
    have mem: "?ch ! k \<in> set ?ch" using k' by simp
    have sp: "py_split (py_join (ustr '' '') (?ch ! k)) = ?ch ! k" using mem by (rule split_chunk_join)
    have ne: "?ch ! k \<noteq> [] \<and> length (?ch ! k) \<le> nat N" using chunks_nonempty[OF mem] by simp
    then have "1 \<le> length (?ch ! k)" by (cases "?ch ! k") simp_all
    then show "?cs ! k = py_join (ustr '' '') (take (nat N) (drop (k * nat N) ?ws)) \<and>
        py_split (?cs ! k) = take (nat N) (drop (k * nat N) ?ws) \<and>
        1 \<le> length (py_split (?cs ! k)) \<and> length (py_split (?cs ! k)) \<le> nat N"
      using k' nth sp ne by simp
  qed
  have full: "\<And>k. Suc k < length ?cs \<Longrightarrow> length (py_split (?cs ! k)) = nat N"
  proof -
    fix k assume k: "Suc k < length ?cs"
    then have "Suc k * nat N \<le> length ?ws" using len full_window[OF n] by simp
    then have l: "length (take (nat N) (drop (k * nat N) ?ws)) = nat N" by simp
    have "k < length ?cs" using k by simp
    then have "py_split (?cs ! k) = take (nat N) (drop (k * nat N) ?ws)" using win by blast
    then show "length (py_split (?cs ! k)) = nat N" using l by simp
  qed
  have emp: "(\<forall>c \<in> set T. py_isspace c) \<Longrightarrow> ?cs = []"
  proof -
    assume "\<forall>c \<in> set T. py_isspace c"
    then have "?ws = []" by (simp add: py_split_def split_all_space)
    then show "?cs = []" by (subst chunks.simps) simp
  qed
  show ?thesis using a len win full emp by blast
qed

theorem chunk_text_windows_witness:
  "(0::int) < 2 \<and> (\<exists>cs. chunk_text (ustr ''a  b c'') 2 = Inr cs \<and> length cs = 2 \<and>
     cs ! 0 = ustr ''a b'' \<and> cs ! 1 = ustr ''c'')"
  using chunk_text_windows[of 2 "ustr ''a  b c''"]
  by (auto simp: py_split_def ustr_def py_isspace_def)

text \<open>
  \<^bold>\<open>C3\<close>. In a run that reaches the summarizing stage, where the call of the chain on
  chunk \<open>i\<close> raises and the calls on the other chunks answer, every chunk is handed to the
  chain, the slot is assigned the join of the per-chunk strings with the placeholder
  \<open>Error processing chunk: ...\<close> at position \<open>i\<close> and the answers at the other positions,
  and the success message is shown. The run raises afterwards only if rendering the PDF
  does.
\<close>

theorem chunk_failure_contained:
  assumes "st_button env" and "st_text_input env = url" and "url \<noteq> []"
    and "fst (load_document env url) = Inr doc"
    and "\<not> py_startswith doc (ustr ''Error'')"
    and "chain_error env = None"
    and "chunk_text doc 500 = Inr cs"
    and "i < length cs"
    and "chain_invoke env i (cs ! i) = Inl e"
    and "\<forall>j < length cs. j \<noteq> i \<longrightarrow> chain_invoke env j (cs ! j) = Inr (r j)"
  shows "run_state (streamlit_mode env st) ''summary'' =
       Some (aggregate (map (\<lambda>j. if j = i then ustr ''Error processing chunk: '' @ exn_str e
                                  else result_text (r j)) [0..<length cs])) \<and>
     StSuccess success_message \<in> set (run_trace (streamlit_mode env st)) \<and>
     invoked (run_trace (streamlit_mode env st)) = cs \<and>
     (\<forall>e'. run_outcome (streamlit_mode env st) = Raised e' \<longrightarrow>
        generate_pdf env (aggregate (map (\<lambda>j. if j = i then ustr ''Error processing chunk: '' @ exn_str e
                                  else result_text (r j)) [0..<length cs])) = Inl e')"
proof -
  let ?ch = "chain_invoke env"
  let ?ss = "map (\<lambda>j. fst (summarize_chunk ?ch j (cs ! j))) [0..<length cs]"
  let ?evs = "concat (map (\<lambda>j. snd (summarize_chunk ?ch j (cs ! j))) [0..<length cs])"
  let ?tr = "page_head @ [StSpinner (ustr ''Fetching document...''), CallLoadDocument url] @
      snd (load_document env url)"
  let ?tr' = "?tr @ [StSpinner (ustr ''Summarizing...''), CallSetupChain, CallChunkText doc] @
      ?evs @ [StSuccess success_message]"
  let ?st' = "(session_init st)(''summary'' \<mapsto> aggregate ?ss)"
  have "streamlit_mode env st = summarize_stage env (session_init st) ?tr doc"
    using assms(1-5) by (cases "load_document env url") (simp add: streamlit_mode_def Let_def)
  then have run: "streamlit_mode env st = show_summary env ?st' ?tr'"
    using summarize_stage_run[OF assms(6,7)] by simp
  have "\<And>j. j < length cs \<Longrightarrow> fst (summarize_chunk ?ch j (cs ! j)) =
      (if j = i then ustr ''Error processing chunk: '' @ exn_str e else result_text (r j))"
    using assms(9,10) by (simp add: summarize_chunk_def)
  then have ss: "?ss = map (\<lambda>j. if j = i then ustr ''Error processing chunk: '' @ exn_str e
                                  else result_text (r j)) [0..<length cs]"
    by (intro map_cong) simp_all
  obtain ex where ex: "run_trace (show_summary env ?st' ?tr') = ?tr' @ ex"
    "list_all is_summary_display ex"
    using show_summary_trace by blast
  have slot: "run_state (streamlit_mode env st) ''summary'' = Some (aggregate ?ss)"
    unfolding run by (simp add: show_summary_state)
  have succ: "StSuccess success_message \<in> set (run_trace (streamlit_mode env st))"
    unfolding run ex(1) by simp
  have inv: "invoked (run_trace (streamlit_mode env st)) = cs"
    unfolding run ex(1)
    using invoked_chunk_events[of ?ch 0 cs] invoked_display[OF ex(2)] invoked_load_document[of env url]
    by (simp add: invoked_append page_head_def)
  have out: "\<And>e'. run_outcome (streamlit_mode env st) = Raised e' \<Longrightarrow>
      generate_pdf env (aggregate ?ss) = Inl e'"
    unfolding run by (rule show_summary_outcome[where st = ?st']) simp_all
  show ?thesis using slot succ inv out unfolding ss by blast
qed

theorem chunk_failure_contained_witness:
  "chunk_text long_text 500 =
     Inr [py_join (ustr '' '') (replicate 500 [97]), py_join (ustr '' '') (replicate 500 [97]), [97]] \<and>
   chain_invoke (example_env 200 long_text) 1 (py_join (ustr '' '') (replicate 500 [97])) =
     Inl (PyException (ustr ''timeout'')) \<and>
   run_state (streamlit_mode (example_env 200 long_text) Map.empty) ''summary'' =
     Some (ustr ''ok'' @ blank_line @ ustr ''Error processing chunk: timeout'' @ blank_line @ ustr ''ok'') \<and>
   invoked (run_trace (streamlit_mode (example_env 200 long_text) Map.empty)) =
     [py_join (ustr '' '') (replicate 500 [97]), py_join (ustr '' '') (replicate 500 [97]), [97]]"
proof -
  let ?E = "example_env 200 long_text"
  let ?c = "py_join (ustr '' '') (replicate 500 [97::nat])"
  let ?cs = "[?c, ?c, [97::nat]]"
  let ?e = "PyException (ustr ''timeout'')"
  let ?r = "\<lambda>j::nat. LlmResult (Some (ustr ''ok'')) []"
  have h1: "st_button ?E" by (simp add: example_env_def)
  have h2: "st_text_input ?E = ustr ''http://a''" by (simp add: example_env_def)
  have h3: "ustr ''http://a'' \<noteq> []" by (simp add: ustr_def)
  have h4: "fst (load_document ?E (ustr ''http://a'')) = Inr long_text"
    by (simp add: long_text_loaded)
  have h5: "\<not> py_startswith long_text (ustr ''Error'')" by (rule long_text_not_error)
  have h6: "chain_error ?E = None" by (simp add: example_env_def)
  have h7: "chunk_text long_text 500 = Inr ?cs" by (rule long_text_chunks)
  have h8: "1 < length ?cs" by simp
  have h9: "chain_invoke ?E 1 (?cs ! 1) = Inl ?e" by (simp add: example_env_def)
  have h10: "\<forall>j < length ?cs. j \<noteq> 1 \<longrightarrow> chain_invoke ?E j (?cs ! j) = Inr (?r j)"
    by (simp add: example_env_def)
  have up: "[0..<length ?cs] = [0, 1, 2]" by (simp add: upt_rec)
  have msg: "ustr ''Error processing chunk: '' @ ustr ''timeout'' = ustr ''Error processing chunk: timeout''"
    by (simp add: ustr_def)
  show ?thesis
    using chunk_failure_contained[OF h1 h2 h3 h4 h5 h6 h7 h8 h9 h10, of Map.empty] h7 h9
    unfolding up
    by (simp add: aggregate_def result_text_def msg)
qed

text \<open>
  \<^bold>\<open>C4\<close>. When \<open>requests.get\<close> raises (a timeout is such an exception) or returns a
  response with a 4xx or 5xx status, the codes for which the status check raises,
  \<open>load_document\<close> returns \<open>Error loading document: ...\<close>, which begins with \<open>Error\<close>;
  the front end shows it with \<open>st.error\<close> and returns, without calling the chunker, the
  chain set-up or the chain.
\<close>

theorem fetch_failure_halts:
  assumes "st_button env" and "st_text_input env = url" and "url \<noteq> []"
    and "requests_status_check env"
    and "(\<exists>e. requests_get env url headers 10 = Inl e) \<or>
         (\<exists>r. requests_get env url headers 10 = Inr r \<and> is_error_status (status_code r))"
  shows "\<exists>e. fst (load_document env url) = Inr (ustr ''Error loading document: '' @ exn_str e) \<and>
     py_startswith (ustr ''Error loading document: '' @ exn_str e) (ustr ''Error'') \<and>
     streamlit_mode env st =
       \<lparr>run_state = session_init st,
        run_trace = page_head @
          [StSpinner (ustr ''Fetching document...''), CallLoadDocument url,
           LogError (ustr ''Failed to load document: '' @ exn_str e),
           StError (ustr ''Error loading document: '' @ exn_str e)],
        run_outcome = Returned\<rparr> \<and>
     (\<forall>d. CallChunkText d \<notin> set (run_trace (streamlit_mode env st))) \<and>
     (\<forall>c. CallInvoke c \<notin> set (run_trace (streamlit_mode env st))) \<and>
     CallSetupChain \<notin> set (run_trace (streamlit_mode env st))"
proof -
  have "\<exists>e. load_document_try env url = Inl e"
    using assms(5)
  proof
    assume "\<exists>e. requests_get env url headers 10 = Inl e"
    then obtain e where "requests_get env url headers 10 = Inl e" ..
    then have "load_document_try env url = Inl e" by (simp add: load_document_try_def)
    then show ?thesis ..
  next
    assume "\<exists>r. requests_get env url headers 10 = Inr r \<and> is_error_status (status_code r)"
    then obtain r where r: "requests_get env url headers 10 = Inr r" "is_error_status (status_code r)"
      by blast
    obtain e where "raise_for_status env r = Some e"
      using error_status_raises[OF assms(4) r(2)] ..
    then have "load_document_try env url = Inl e" using r(1) by (simp add: load_document_try_def)
    then show ?thesis ..
  qed
  then obtain e where e: "load_document_try env url = Inl e" ..
  show ?thesis using raised_fetch_halts[OF assms(1-3) e, of st] by blast
qed

theorem fetch_failure_halts_witness:
  "requests_status_check (example_env 404 (ustr ''x'')) \<and>
   requests_get (example_env 404 (ustr ''x'')) (ustr ''http://a'') headers 10 =
     Inr \<lparr>status_code = 404, resp_text = ustr ''x''\<rparr> \<and>
   is_error_status 404 \<and>
   (\<exists>e. streamlit_mode (example_env 404 (ustr ''x'')) Map.empty =
     \<lparr>run_state = [''summary'' \<mapsto> []],
      run_trace = page_head @
        [StSpinner (ustr ''Fetching document...''), CallLoadDocument (ustr ''http://a''),
         LogError (ustr ''Failed to load document: '' @ exn_str e),
         StError (ustr ''Error loading document: '' @ exn_str e)],
      run_outcome = Returned\<rparr>) \<and>
   requests_status_check
     (example_env 200 (ustr ''x'')\<lparr>requests_get := \<lambda>u h t. Inl (PyException (ustr ''timed out''))\<rparr>) \<and>
   (\<exists>e. streamlit_mode
      (example_env 200 (ustr ''x'')\<lparr>requests_get := \<lambda>u h t. Inl (PyException (ustr ''timed out''))\<rparr>)
      Map.empty =
     \<lparr>run_state = [''summary'' \<mapsto> []],
      run_trace = page_head @
        [StSpinner (ustr ''Fetching document...''), CallLoadDocument (ustr ''http://a''),
         LogError (ustr ''Failed to load document: '' @ exn_str e),
         StError (ustr ''Error loading document: '' @ exn_str e)],
      run_outcome = Returned\<rparr>)"
proof -
  let ?E = "example_env 404 (ustr ''x'')"
  let ?F = "example_env 200 (ustr ''x'')\<lparr>requests_get := \<lambda>u h t. Inl (PyException (ustr ''timed out''))\<rparr>"
  have h3: "ustr ''http://a'' \<noteq> []" by (simp add: ustr_def)
  have e1: "st_button ?E" by (simp add: example_env_def)
  have e2: "st_text_input ?E = ustr ''http://a''" by (simp add: example_env_def)
  have e4: "requests_status_check ?E" by (rule example_env_status_check)
  have eg: "requests_get ?E (ustr ''http://a'') headers 10 = Inr \<lparr>status_code = 404, resp_text = ustr ''x''\<rparr>"
    by (simp add: example_env_def)
  have es: "is_error_status 404" by (simp add: is_error_status_def)
  have e5: "(\<exists>e. requests_get ?E (ustr ''http://a'') headers 10 = Inl e) \<or>
         (\<exists>r. requests_get ?E (ustr ''http://a'') headers 10 = Inr r \<and> is_error_status (status_code r))"
    using eg es by simp
  have f1: "st_button ?F" by (simp add: example_env_def)
  have f2: "st_text_input ?F = ustr ''http://a''" by (simp add: example_env_def)
  have f4: "requests_status_check ?F"
    by (simp add: requests_status_check_def example_env_def is_error_status_def)
  have f5: "(\<exists>e. requests_get ?F (ustr ''http://a'') headers 10 = Inl e) \<or>
         (\<exists>r. requests_get ?F (ustr ''http://a'') headers 10 = Inr r \<and> is_error_status (status_code r))"
    by simp
  have i: "session_init Map.empty = [''summary'' \<mapsto> []]" by (simp add: session_init_def)
  have a: "\<exists>e. streamlit_mode ?E Map.empty =
     \<lparr>run_state = [''summary'' \<mapsto> []],
      run_trace = page_head @
        [StSpinner (ustr ''Fetching document...''), CallLoadDocument (ustr ''http://a''),
         LogError (ustr ''Failed to load document: '' @ exn_str e),
         StError (ustr ''Error loading document: '' @ exn_str e)],
      run_outcome = Returned\<rparr>"
    using fetch_failure_halts[OF e1 e2 h3 e4 e5, of Map.empty] unfolding i by blast
  have b: "\<exists>e. streamlit_mode ?F Map.empty =
     \<lparr>run_state = [''summary'' \<mapsto> []],
      run_trace = page_head @
        [StSpinner (ustr ''Fetching document...''), CallLoadDocument (ustr ''http://a''),
         LogError (ustr ''Failed to load document: '' @ exn_str e),
         StError (ustr ''Error loading document: '' @ exn_str e)],
      run_outcome = Returned\<rparr>"
    using fetch_failure_halts[OF f1 f2 h3 f4 f5, of Map.empty] unfolding i by blast
  show ?thesis using e4 eg es a f4 b by blast
qed

text \<open>
  The same does not hold of every status outside 2xx: a response that ends with status
  300 passes the status check, its body is returned as the document, and the run chunks
  it, hands it to the chain and stores the answer.
\<close>

theorem non_2xx_status_counterexample:
  "requests_status_check (example_env 300 (ustr ''moved'')) \<and>
   requests_get (example_env 300 (ustr ''moved'')) (ustr ''http://a'') headers 10 =
     Inr \<lparr>status_code = 300, resp_text = ustr ''moved''\<rparr> \<and>
   \<not> is_success_status 300 \<and>
   fst (load_document (example_env 300 (ustr ''moved'')) (ustr ''http://a'')) = Inr (ustr ''moved'') \<and>
   \<not> py_startswith (ustr ''moved'') (ustr ''Error'') \<and>
   CallChunkText (ustr ''moved'') \<in>
     set (run_trace (streamlit_mode (example_env 300 (ustr ''moved'')) Map.empty)) \<and>
   invoked (run_trace (streamlit_mode (example_env 300 (ustr ''moved'')) Map.empty)) = [ustr ''moved''] \<and>
   run_state (streamlit_mode (example_env 300 (ustr ''moved'')) Map.empty) ''summary'' =
     Some (ustr ''ok'')"
proof -
  let ?b = "ustr ''moved''"
  let ?E = "example_env 300 ?b"
  have sc: "requests_status_check ?E" by (rule example_env_status_check)
  have get: "requests_get ?E (ustr ''http://a'') headers 10 = Inr \<lparr>status_code = 300, resp_text = ?b\<rparr>"
    by (simp add: example_env_def)
  have n2: "\<not> is_success_status 300" by (simp add: is_success_status_def)
  have st: "py_strip ?b = ?b" by (simp add: py_strip_def ustr_def py_isspace_def)
  have bne: "?b \<noteq> []" by (simp add: ustr_def)
  have ld: "load_document ?E (ustr ''http://a'') = (Inr ?b, [])"
    using bne by (simp add: load_document_def load_document_try_def clean_html_def example_env_def st)
  have ne: "\<not> py_startswith ?b (ustr ''Error'')" by (simp add: py_startswith_def ustr_def)
  have sp: "py_split ?b = [?b]" by (simp add: py_split_def ustr_def py_isspace_def)
  have "chunk_text ?b 500 = Inr (map (py_join (ustr '' '')) (chunks (nat 500) (py_split ?b)))"
    by (rule chunk_text_chunks) simp
  moreover have "chunks 500 [?b] = [[?b]]"
    by (subst chunks.simps, simp, subst chunks.simps, simp)
  ultimately have ch: "chunk_text ?b 500 = Inr [?b]" by (simp add: sp)
  have i: "st_button ?E \<and> st_text_input ?E = ustr ''http://a'' \<and> chain_error ?E = None \<and>
      ustr ''http://a'' \<noteq> []"
    by (simp add: example_env_def ustr_def)
  let ?tr = "page_head @ [StSpinner (ustr ''Fetching document...''), CallLoadDocument (ustr ''http://a'')]"
  let ?tr' = "?tr @ [StSpinner (ustr ''Summarizing...''), CallSetupChain, CallChunkText ?b,
                CallInvoke ?b, StSuccess success_message]"
  have "streamlit_mode ?E Map.empty = summarize_stage ?E (session_init Map.empty) ?tr ?b"
    using i ld ne by (simp add: streamlit_mode_def Let_def)
  then have run: "streamlit_mode ?E Map.empty =
      show_summary ?E ((session_init Map.empty)(''summary'' \<mapsto> ustr ''ok'')) ?tr'"
    using i summarize_stage_run[of ?E ?b "[?b]" "session_init Map.empty" ?tr, OF _ ch]
    by (simp add: aggregate_def summarize_chunk_def result_text_def example_env_def)
  obtain ex where ex: "run_trace (streamlit_mode ?E Map.empty) = ?tr' @ ex"
    "list_all is_summary_display ex"
    unfolding run using show_summary_trace by blast
  have inv: "invoked (run_trace (streamlit_mode ?E Map.empty)) = [?b]"
    unfolding ex(1) using invoked_display[OF ex(2)] by (simp add: invoked_append page_head_def)
  have mem: "CallChunkText ?b \<in> set (run_trace (streamlit_mode ?E Map.empty))"
    unfolding ex(1) by simp
  have slot: "run_state (streamlit_mode ?E Map.empty) ''summary'' = Some (ustr ''ok'')"
    unfolding run by (simp add: show_summary_state)
  show ?thesis using sc get n2 ld ne inv mem slot by simp
qed

text \<open>
  \<^bold>\<open>C5\<close>. The aggregate of line 119 is the left-to-right concatenation
  \<open>s1 + blank line + s2 + ... + blank line + sn\<close> of the per-chunk strings, whatever
  they contain; the blank line is two line feeds.
\<close>

theorem aggregate_is_ordered_join:
  "aggregate ss = aggregate_spec ss \<and>
   aggregate [s1, s2, s3] = s1 @ blank_line @ s2 @ blank_line @ s3 \<and>
   blank_line = ustr [CHR 0x0A, CHR 0x0A]"
  by (cases ss) (simp_all add: aggregate_def aggregate_spec_def py_join_as_foldl blank_line_def ustr_def)

text \<open>
  \<^bold>\<open>C6\<close>. When the page is fetched and the extracted text is empty, \<open>load_document\<close>
  returns the sentinel \<open>No content extracted. Try a different URL.\<close>. The sentinel does
  not begin with \<open>Error\<close>, so the front end hands it to the chunker and to the chain as
  one chunk, and stores the chain's answer as the summary.
\<close>

theorem empty_page_sentinel_is_summarized:
  "fst (load_document (example_env 200 []) (ustr ''http://a'')) = Inr no_content \<and>
   \<not> py_startswith no_content (ustr ''Error'') \<and>
   chunk_text no_content 500 = Inr [no_content] \<and>
   invoked (run_trace (streamlit_mode (example_env 200 []) Map.empty)) = [no_content] \<and>
   CallChunkText no_content \<in> set (run_trace (streamlit_mode (example_env 200 []) Map.empty)) \<and>
   run_state (streamlit_mode (example_env 200 []) Map.empty) ''summary'' = Some (ustr ''ok'')"
proof -
  let ?E = "example_env 200 []"
  have ld: "load_document ?E (ustr ''http://a'') = (Inr no_content, [])"
    by (simp add: load_document_def load_document_try_def clean_html_def example_env_def py_strip_def)
  have ne: "\<not> py_startswith no_content (ustr ''Error'')"
    by (simp add: py_startswith_def no_content_def ustr_def)
  have sp: "py_split no_content =
      [ustr ''No'', ustr ''content'', ustr ''extracted.'', ustr ''Try'', ustr ''a'', ustr ''different'', ustr ''URL.'']"
    by (simp add: py_split_def no_content_def ustr_def py_isspace_def)
  have "chunk_text no_content 500 = Inr (map (py_join (ustr '' '')) (chunks (nat 500) (py_split no_content)))"
    by (rule chunk_text_chunks) simp
  moreover have "chunks 500 (py_split no_content) = [py_split no_content]"
    unfolding sp by (subst chunks.simps, simp, subst chunks.simps, simp)
  moreover have "py_join (ustr '' '') (py_split no_content) = no_content"
    unfolding sp by (simp add: no_content_def ustr_def)
  ultimately have ch: "chunk_text no_content 500 = Inr [no_content]" by simp
  have i: "st_button ?E \<and> st_text_input ?E = ustr ''http://a'' \<and> chain_error ?E = None \<and>
      ustr ''http://a'' \<noteq> []"
    by (simp add: example_env_def ustr_def)
  let ?tr = "page_head @ [StSpinner (ustr ''Fetching document...''), CallLoadDocument (ustr ''http://a'')]"
  have "streamlit_mode ?E Map.empty = summarize_stage ?E (session_init Map.empty) ?tr no_content"
    using i ld ne by (simp add: streamlit_mode_def Let_def)
  then have run: "streamlit_mode ?E Map.empty =
      show_summary ?E ((session_init Map.empty)(''summary'' \<mapsto> ustr ''ok''))
        (?tr @ [StSpinner (ustr ''Summarizing...''), CallSetupChain, CallChunkText no_content,
                CallInvoke no_content, StSuccess success_message])"
    using i summarize_stage_run[of ?E no_content "[no_content]" "session_init Map.empty" ?tr, OF _ ch]
    by (simp add: aggregate_def summarize_chunk_def result_text_def example_env_def)
  obtain ex where ex: "run_trace (streamlit_mode ?E Map.empty) =
      (?tr @ [StSpinner (ustr ''Summarizing...''), CallSetupChain, CallChunkText no_content,
                CallInvoke no_content, StSuccess success_message]) @ ex"
    "list_all is_summary_display ex"
    unfolding run using show_summary_trace by blast
  have inv: "invoked (run_trace (streamlit_mode ?E Map.empty)) = [no_content]"
    unfolding ex(1) using invoked_display[OF ex(2)] by (simp add: invoked_append page_head_def)
  have mem: "CallChunkText no_content \<in> set (run_trace (streamlit_mode ?E Map.empty))"
    unfolding ex(1) by simp
  have slot: "run_state (streamlit_mode ?E Map.empty) ''summary'' = Some (ustr ''ok'')"
    unfolding run by (simp add: show_summary_state)
  show ?thesis using ld ne ch inv mem slot by simp
qed

text \<open>
  \<^bold>\<open>C7\<close>. A run whose document begins with \<open>Error\<close> leaves the session state as lines
  90-91 make it: unchanged when the slot exists, and with the slot created empty
  otherwise. In every run, a session state other than that one implies that the success
  message of line 120 was shown, that is, that the summarizing stage was completed.
\<close>

theorem fetch_failure_keeps_slot:
  "(st_button env \<and> st_text_input env = url \<and> url \<noteq> [] \<and>
      fst (load_document env url) = Inr d \<and> py_startswith d (ustr ''Error'') \<longrightarrow>
        run_state (streamlit_mode env st) = session_init st \<and>
        (st ''summary'' \<noteq> None \<longrightarrow> run_state (streamlit_mode env st) = st)) \<and>
   (session_init st ''summary'' = Some (case st ''summary'' of None \<Rightarrow> [] | Some v \<Rightarrow> v)) \<and>
   (run_state (streamlit_mode env st) \<noteq> session_init st \<longrightarrow>
      StSuccess success_message \<in> set (run_trace (streamlit_mode env st)))"
proof -
  have a: "st_button env \<and> st_text_input env = url \<and> url \<noteq> [] \<and>
      fst (load_document env url) = Inr d \<and> py_startswith d (ustr ''Error'') \<Longrightarrow>
        run_state (streamlit_mode env st) = session_init st"
    by (cases "load_document env url") (simp add: streamlit_mode_def Let_def)
  have b: "st ''summary'' \<noteq> None \<Longrightarrow> session_init st = st" by (auto simp: session_init_def)
  have c: "session_init st ''summary'' = Some (case st ''summary'' of None \<Rightarrow> [] | Some v \<Rightarrow> v)"
    by (simp add: session_init_def split: option.split)
  show ?thesis using a b c streamlit_mode_state[of env st] by auto
qed

theorem fetch_failure_keeps_slot_witness:
  "st_button (example_env 404 (ustr ''x'')) \<and>
   fst (load_document (example_env 404 (ustr ''x'')) (ustr ''http://a'')) =
     Inr (ustr ''Error loading document: HTTPError'') \<and>
   py_startswith (ustr ''Error loading document: HTTPError'') (ustr ''Error'') \<and>
   [''summary'' \<mapsto> ustr ''old''] ''summary'' \<noteq> None \<and>
   run_state (streamlit_mode (example_env 404 (ustr ''x'')) [''summary'' \<mapsto> ustr ''old'']) =
     [''summary'' \<mapsto> ustr ''old'']"
proof -
  let ?E = "example_env 404 (ustr ''x'')"
  have h1: "st_button ?E" by (simp add: example_env_def)
  have h2: "st_text_input ?E = ustr ''http://a''" by (simp add: example_env_def)
  have h3: "ustr ''http://a'' \<noteq> []" by (simp add: ustr_def)
  have h4: "fst (load_document ?E (ustr ''http://a'')) = Inr (ustr ''Error loading document: HTTPError'')"
    by (simp add: load_document_def load_document_try_def example_env_def ustr_def)
  have h5: "py_startswith (ustr ''Error loading document: HTTPError'') (ustr ''Error'')"
    by (simp add: py_startswith_def ustr_def)
  show ?thesis
    using fetch_failure_keeps_slot[of ?E "ustr ''http://a''" "ustr ''Error loading document: HTTPError''"
        "[''summary'' \<mapsto> ustr ''old'']"] h1 h2 h3 h4 h5
    by auto
qed

text \<open>
  \<^bold>\<open>C8\<close>. When the button is pressed with an empty URL, the warning is shown, no
  spinner is entered, and the run calls neither the loader nor the chunker nor the
  chain; the session state is as lines 90-91 make it.
\<close>

theorem empty_url_short_circuits:
  assumes "st_button env" and "st_text_input env = []"
  shows "StWarning (ustr ''Please enter a valid URL.'') \<in> set (run_trace (streamlit_mode env st)) \<and>
     (\<forall>m. StSpinner m \<notin> set (run_trace (streamlit_mode env st))) \<and>
     (\<forall>ev \<in> set (run_trace (streamlit_mode env st)). \<not> is_pipeline_call ev) \<and>
     run_state (streamlit_mode env st) = session_init st"
proof -
  let ?tr = "page_head @ [StWarning (ustr ''Please enter a valid URL.'')]"
  have run: "streamlit_mode env st = show_summary env (session_init st) ?tr"
    using assms by (simp add: streamlit_mode_def Let_def)
  obtain ex where ex: "run_trace (show_summary env (session_init st) ?tr) = ?tr @ ex"
    "list_all is_summary_display ex"
    using show_summary_trace by blast
  have a: "\<And>ev. ev \<in> set ex \<Longrightarrow> \<not> is_pipeline_call ev \<and> (\<forall>m. ev \<noteq> StSpinner m)"
  proof -
    fix ev assume "ev \<in> set ex"
    then have "is_summary_display ev" using ex(2) by (simp add: list_all_iff)
    then show "\<not> is_pipeline_call ev \<and> (\<forall>m. ev \<noteq> StSpinner m)" by (cases ev) simp_all
  qed
  show ?thesis
    unfolding run ex(1) using a by (auto simp: page_head_def show_summary_state)
qed

theorem empty_url_short_circuits_witness:
  "st_button (example_env 200 (ustr ''x'')\<lparr>st_text_input := []\<rparr>) \<and>
   st_text_input (example_env 200 (ustr ''x'')\<lparr>st_text_input := []\<rparr>) = [] \<and>
   run_state (streamlit_mode (example_env 200 (ustr ''x'')\<lparr>st_text_input := []\<rparr>)
      [''summary'' \<mapsto> ustr ''old'']) = [''summary'' \<mapsto> ustr ''old''] \<and>
   filter is_pipeline_call
     (run_trace (streamlit_mode (example_env 200 (ustr ''x'')\<lparr>st_text_input := []\<rparr>)
        [''summary'' \<mapsto> ustr ''old''])) = []"
proof -
  let ?E = "example_env 200 (ustr ''x'')\<lparr>st_text_input := []\<rparr>"
  have h1: "st_button ?E" by (simp add: example_env_def)
  have h2: "st_text_input ?E = []" by (simp add: example_env_def)
  show ?thesis
    using empty_url_short_circuits[OF h1 h2, of "[''summary'' \<mapsto> ustr ''old'']"] h1 h2
    by (simp add: session_init_def filter_empty_conv)
qed

text \<open>
  \<^bold>\<open>C9\<close>. \<open>load_document\<close> never raises: for every environment and URL it returns a
  string, which is the sentinel, or begins with \<open>Error loading document: \<close>, or is the
  text extracted from a response that passed the status check.
\<close>

theorem load_document_total:
  "\<exists>s. fst (load_document env url) = Inr s \<and>
     (s = no_content \<or> py_startswith s (ustr ''Error loading document: '') \<or>
      (\<exists>r. requests_get env url headers 10 = Inr r \<and> raise_for_status env r = None \<and>
           clean_html env (resp_text r) = Inr s))"
proof (cases "load_document_try env url")
  case (Inl e)
  then show ?thesis
    using load_document_raised[OF Inl] startswith_error_prefix by simp
next
  case (Inr s)
  then have "s = no_content \<or>
      (\<exists>r. requests_get env url headers 10 = Inr r \<and> raise_for_status env r = None \<and>
           clean_html env (resp_text r) = Inr s)"
    by (auto simp: load_document_try_def split: sum.splits option.splits if_splits)
  then show ?thesis using load_document_returned[OF Inr] by auto
qed

theorem load_document_total_witness:
  "fst (load_document (example_env 200 (ustr '' hi '')) (ustr ''http://a'')) = Inr (ustr ''hi'')"
  using load_document_total[of "example_env 200 (ustr '' hi '')" "ustr ''http://a''"]
  by (simp add: load_document_def load_document_try_def clean_html_def example_env_def
      py_strip_def py_isspace_def ustr_def)

text \<open>
  \<^bold>\<open>C10\<close>. When the fetch and the extraction succeed and the extracted text begins with
  \<open>Error\<close>, \<open>load_document\<close> returns that text without logging anything, and the front
  end shows it with \<open>st.error\<close> and returns before chunking.
\<close>

theorem error_text_page_treated_as_failure:
  assumes "st_button env" and "st_text_input env = url" and "url \<noteq> []"
    and "requests_get env url headers 10 = Inr r" and "raise_for_status env r = None"
    and "bs_get_text env (resp_text r) (ustr '' '') = Inr t"
    and "py_startswith (py_strip t) (ustr ''Error'')"
  shows "load_document env url = (Inr (py_strip t), []) \<and>
     streamlit_mode env st =
       \<lparr>run_state = session_init st,
        run_trace = page_head @
          [StSpinner (ustr ''Fetching document...''), CallLoadDocument url,
           StError (py_strip t)],
        run_outcome = Returned\<rparr> \<and>
     (\<forall>d. CallChunkText d \<notin> set (run_trace (streamlit_mode env st)))"
proof -
  have ne: "py_strip t \<noteq> []" using assms(7) by (auto simp: py_startswith_def ustr_def)
  have "load_document_try env url = Inr (py_strip t)"
    using assms(4-6) ne by (simp add: load_document_try_def clean_html_def)
  then have ld: "load_document env url = (Inr (py_strip t), [])" by (rule load_document_returned)
  have run: "streamlit_mode env st =
       \<lparr>run_state = session_init st,
        run_trace = page_head @
          [StSpinner (ustr ''Fetching document...''), CallLoadDocument url,
           StError (py_strip t)],
        run_outcome = Returned\<rparr>"
    using assms(1-3,7) ld by (simp add: streamlit_mode_def Let_def)
  show ?thesis unfolding run using ld by (simp add: page_head_def)
qed

theorem error_text_page_treated_as_failure_witness:
  "st_button (example_env 200 (ustr ''Error 404: page not found'')) \<and>
   raise_for_status (example_env 200 (ustr ''Error 404: page not found''))
     \<lparr>status_code = 200, resp_text = ustr ''Error 404: page not found''\<rparr> = None \<and>
   py_startswith (py_strip (ustr ''Error 404: page not found'')) (ustr ''Error'') \<and>
   streamlit_mode (example_env 200 (ustr ''Error 404: page not found'')) Map.empty =
     \<lparr>run_state = [''summary'' \<mapsto> []],
      run_trace = page_head @
        [StSpinner (ustr ''Fetching document...''), CallLoadDocument (ustr ''http://a''),
         StError (ustr ''Error 404: page not found'')],
      run_outcome = Returned\<rparr>"
proof -
  let ?b = "ustr ''Error 404: page not found''"
  let ?E = "example_env 200 ?b"
  let ?r = "\<lparr>status_code = 200, resp_text = ?b\<rparr>"
  have h1: "st_button ?E" by (simp add: example_env_def)
  have h2: "st_text_input ?E = ustr ''http://a''" by (simp add: example_env_def)
  have h3: "ustr ''http://a'' \<noteq> []" by (simp add: ustr_def)
  have h4: "requests_get ?E (ustr ''http://a'') headers 10 = Inr ?r" by (simp add: example_env_def)
  have h5: "raise_for_status ?E ?r = None" by (simp add: example_env_def)
  have h6: "bs_get_text ?E (resp_text ?r) (ustr '' '') = Inr ?b" by (simp add: example_env_def)
  have st: "py_strip ?b = ?b" by (simp add: py_strip_def ustr_def py_isspace_def)
  have h7: "py_startswith (py_strip ?b) (ustr ''Error'')"
    unfolding st by (simp add: py_startswith_def ustr_def)
  show ?thesis
    using error_text_page_treated_as_failure[OF h1 h2 h3 h4 h5 h6 h7, of Map.empty] h1 h5 h7
    by (simp add: session_init_def st)
qed

end
